theory Spec2Isabelle
  imports Main "HOL-Library.Sublist"
begin

section \<open>JavaScript strings\<close>

text \<open>
  A JavaScript string is a sequence of UTF-16 code units; \<open>length\<close> and \<open>slice\<close> count
  code units. The source has literals outside ASCII (a typographic apostrophe, dashes, an
  arrow), so a code unit is a natural number and an ASCII literal is embedded with \<open>js\<close>.
\<close>

type_synonym jsstring = "nat list"

definition js :: "string \<Rightarrow> jsstring" where
  "js s = map of_char s"

definition isDigit :: "nat \<Rightarrow> bool" where
  "isDigit c = (48 \<le> c \<and> c \<le> 57)"

definition isLower :: "nat \<Rightarrow> bool" where
  "isLower c = (97 \<le> c \<and> c \<le> 122)"

definition isUpper :: "nat \<Rightarrow> bool" where
  "isUpper c = (65 \<le> c \<and> c \<le> 90)"

text \<open>The word characters of \<open>\b\<close>: \<open>[A-Za-z0-9_]\<close>.\<close>

definition isWordChar :: "nat \<Rightarrow> bool" where
  "isWordChar c = (isDigit c \<or> isUpper c \<or> isLower c \<or> c = 95)"

text \<open>The line terminators, which \<open>.\<close> does not match: LF, CR, U+2028, U+2029.\<close>

definition isLineTerminator :: "nat \<Rightarrow> bool" where
  "isLineTerminator c = (c = 10 \<or> c = 13 \<or> c = 8232 \<or> c = 8233)"

text \<open>
  White space and line terminators, the characters of \<open>\s\<close> and the ones \<open>trim\<close> strips:
  U+0009..U+000D, U+0020, U+00A0, U+1680, U+2000..U+200A, U+2028, U+2029, U+202F, U+205F,
  U+3000, U+FEFF.
\<close>

definition isWhiteSpace :: "nat \<Rightarrow> bool" where
  "isWhiteSpace c = ((9 \<le> c \<and> c \<le> 13) \<or> c = 32 \<or> c = 160 \<or> c = 5760
     \<or> (8192 \<le> c \<and> c \<le> 8202) \<or> c = 8232 \<or> c = 8233 \<or> c = 8239 \<or> c = 8287
     \<or> c = 12288 \<or> c = 65279)"

text \<open>
  \<open>String.prototype.toLowerCase\<close>. Basic Latin capitals move to their small letters. Outside
  Basic Latin the two code points whose lower case reaches Basic Latin are mapped as Unicode
  does: U+212A (Kelvin sign) to \<open>k\<close>, and U+0130 to \<open>i\<close> followed by U+0307. Every other
  cased letter outside Basic Latin is left as it is: its lower case is again a letter outside
  Basic Latin, and the patterns of this program tell such code units apart only as white
  space, line terminator or neither.
\<close>

definition lowerUnit :: "nat \<Rightarrow> jsstring" where
  "lowerUnit c = (if isUpper c then [c + 32]
     else if c = 304 then [105, 775]
     else if c = 8490 then [107]
     else [c])"

definition toLowerCase :: "jsstring \<Rightarrow> jsstring" where
  "toLowerCase s = concat (map lowerUnit s)"

text \<open>
  \<open>String.prototype.toUpperCase\<close>, on Basic Latin. The program applies it to the text of a
  number in radix 36 only.
\<close>

definition toUpperCase :: "jsstring \<Rightarrow> jsstring" where
  "toUpperCase s = map (\<lambda>c. if isLower c then c - 32 else c) s"

definition trim :: "jsstring \<Rightarrow> jsstring" where
  "trim s = rev (dropWhile isWhiteSpace (rev (dropWhile isWhiteSpace s)))"

text \<open>\<open>s.slice(a, b)\<close> for \<open>0 \<le> a \<le> b\<close>: the code units from index \<open>a\<close> up to, not including, \<open>b\<close>.\<close>

definition slice :: "jsstring \<Rightarrow> nat \<Rightarrow> nat \<Rightarrow> jsstring" where
  "slice s a b = take (b - a) (drop a s)"

section \<open>Regular expressions\<close>

text \<open>
  The fragment of ECMAScript regular expressions the source uses: literals, alternation,
  sequence, \<open>?\<close> on a group, the greedy quantifiers \<open>*\<close>, \<open>{n,}\<close> and \<open>{n}\<close> on a single
  character class, capture groups, \<open>\b\<close> and \<open>^\<close>. The matcher is the backtracking one of
  the standard: \<open>ms\<close> lists the ways a pattern matches from a position, in the order the
  backtracking tries them, each with the end position and the captures.
\<close>

datatype cclass = Dot | Digit | Space | Ranges "(nat \<times> nat) list"

text \<open>
  With the flag \<open>i\<close> and no flag \<open>u\<close>, two code units match when their canonical forms agree;
  the canonical form is the upper case, except that a code unit outside Basic Latin never
  becomes one inside. For the Basic Latin patterns of the source this is folding of
  \<open>a\<close>..\<open>z\<close>.
\<close>

definition canonicalize :: "bool \<Rightarrow> nat \<Rightarrow> nat" where
  "canonicalize ic c = (if ic \<and> isLower c then c - 32 else c)"

fun inClass :: "bool \<Rightarrow> cclass \<Rightarrow> nat \<Rightarrow> bool" where
  "inClass ic Dot c = (\<not> isLineTerminator c)"
| "inClass ic Digit c = isDigit c"
| "inClass ic Space c = isWhiteSpace c"
| "inClass ic (Ranges rs) c =
     list_ex (\<lambda>(lo, hi). (lo \<le> c \<and> c \<le> hi)
        \<or> (ic \<and> isLower c \<and> lo \<le> c - 32 \<and> c - 32 \<le> hi)
        \<or> (ic \<and> isUpper c \<and> lo \<le> c + 32 \<and> c + 32 \<le> hi)) rs"

datatype re =
    Lit jsstring
  | Seq re re
  | Alt re re
  | Opt re
  | AtLeast nat cclass
  | Times nat cclass
  | Group nat re
  | WordB
  | Bol

type_synonym captures = "(nat \<times> jsstring) list"
type_synonym mstate = "nat \<times> captures"

definition run :: "bool \<Rightarrow> jsstring \<Rightarrow> cclass \<Rightarrow> nat \<Rightarrow> nat" where
  "run ic t k p = length (takeWhile (inClass ic k) (drop p t))"

definition wordAt :: "jsstring \<Rightarrow> nat \<Rightarrow> bool" where
  "wordAt t p = (p < length t \<and> isWordChar (t ! p))"

definition boundary :: "jsstring \<Rightarrow> nat \<Rightarrow> bool" where
  "boundary t p = ((p \<noteq> 0 \<and> wordAt t (p - 1)) \<noteq> wordAt t p)"

fun ms :: "bool \<Rightarrow> jsstring \<Rightarrow> re \<Rightarrow> mstate \<Rightarrow> mstate list" where
  "ms ic t (Lit w) (p, c) =
     (if map (canonicalize ic) (take (length w) (drop p t)) = map (canonicalize ic) w
      then [(p + length w, c)] else [])"
| "ms ic t (Seq a b) s = concat (map (ms ic t b) (ms ic t a s))"
| "ms ic t (Alt a b) s = ms ic t a s @ ms ic t b s"
| "ms ic t (Opt a) s = ms ic t a s @ [s]"
| "ms ic t (AtLeast n k) (p, c) = map (\<lambda>j. (p + j, c)) (rev [n..<Suc (run ic t k p)])"
| "ms ic t (Times n k) (p, c) = (if n \<le> run ic t k p then [(p + n, c)] else [])"
| "ms ic t (Group g a) (p, c) =
     map (\<lambda>(q, c'). (q, (g, slice t p q) # c')) (ms ic t a (p, c))"
| "ms ic t WordB (p, c) = (if boundary t p then [(p, c)] else [])"
| "ms ic t Bol (p, c) = (if p = 0 then [(p, c)] else [])"

text \<open>
  \<open>RegExp.prototype.exec\<close> without the flags \<open>g\<close> and \<open>y\<close>: the first start position, from
  the left, at which the pattern matches, with the first way it matches there.
\<close>

fun search :: "bool \<Rightarrow> jsstring \<Rightarrow> re \<Rightarrow> nat list \<Rightarrow> mstate option" where
  "search ic t r [] = None"
| "search ic t r (p # ps) =
     (case ms ic t r (p, []) of [] \<Rightarrow> search ic t r ps | m # _ \<Rightarrow> Some m)"

definition exec :: "bool \<Rightarrow> re \<Rightarrow> jsstring \<Rightarrow> mstate option" where
  "exec ic r t = search ic t r [0..<Suc (length t)]"

definition test :: "bool \<Rightarrow> re \<Rightarrow> jsstring \<Rightarrow> bool" where
  "test ic r t = (exec ic r t \<noteq> None)"

text \<open>\<open>t.match(r)?.[g]\<close>: the capture of group \<open>g\<close>, \<open>undefined\<close> as \<open>None\<close>.\<close>

definition matchGroup :: "bool \<Rightarrow> re \<Rightarrow> jsstring \<Rightarrow> nat \<Rightarrow> jsstring option" where
  "matchGroup ic r t g = (case exec ic r t of None \<Rightarrow> None | Some (q, c) \<Rightarrow> map_of c g)"

fun alts :: "jsstring list \<Rightarrow> re" where
  "alts [] = Lit []"
| "alts [w] = Lit w"
| "alts (w # ws) = Alt (Lit w) (alts ws)"

section \<open>Intent detection\<close>

datatype Intent =
    order_status "jsstring option"
  | shipping_eta "jsstring option" "jsstring option"
  | return_policy
  | refund_policy
  | account_help
  | escalate
  | unknown

text \<open>\<open>/#?(?:order|ord)\s*([a-z0-9-]{5,})/i\<close>\<close>

definition idRe :: re where
  "idRe = Seq (Opt (Lit (js ''#'')))
           (Seq (Alt (Lit (js ''order'')) (Lit (js ''ord'')))
             (Seq (AtLeast 0 Space)
               (Group 1 (AtLeast 5 (Ranges [(97, 122), (48, 57), (45, 45)])))))"

text \<open>\<open>/\b(\d{5})(?:-\d{4})?\b/\<close>\<close>

definition zipRe :: re where
  "zipRe = Seq WordB
            (Seq (Group 1 (Times 5 Digit))
              (Seq (Opt (Seq (Lit (js ''-'')) (Times 4 Digit))) WordB))"

text \<open>\<open>/(where|status|track).*(order|package)/\<close>\<close>

definition orderStatusRe :: re where
  "orderStatusRe = Seq (Group 1 (alts [js ''where'', js ''status'', js ''track'']))
     (Seq (AtLeast 0 Dot) (Group 2 (alts [js ''order'', js ''package''])))"

text \<open>\<open>/(when|arrive|coming|eta|delivery).*(order|package|shipping)/\<close>\<close>

definition shippingEtaRe :: re where
  "shippingEtaRe =
     Seq (Group 1 (alts [js ''when'', js ''arrive'', js ''coming'', js ''eta'', js ''delivery'']))
     (Seq (AtLeast 0 Dot) (Group 2 (alts [js ''order'', js ''package'', js ''shipping''])))"

text \<open>\<open>/(return|exchange).*(policy|how|can i)/\<close>\<close>

definition returnPolicyRe :: re where
  "returnPolicyRe = Seq (Group 1 (alts [js ''return'', js ''exchange'']))
     (Seq (AtLeast 0 Dot) (Group 2 (alts [js ''policy'', js ''how'', js ''can i''])))"

text \<open>\<open>/(refund).*(policy|how|timeline)/\<close>\<close>

definition refundPolicyRe :: re where
  "refundPolicyRe = Seq (Group 1 (Lit (js ''refund'')))
     (Seq (AtLeast 0 Dot) (Group 2 (alts [js ''policy'', js ''how'', js ''timeline''])))"

text \<open>\<open>/(login|account|password|profile|email change)/\<close>\<close>

definition accountHelpRe :: re where
  "accountHelpRe = Group 1 (alts [js ''login'', js ''account'', js ''password'', js ''profile'',
     js ''email change''])"

text \<open>\<open>/(human|agent|representative|someone|escalate)/\<close>\<close>

definition escalateRe :: re where
  "escalateRe = Group 1 (alts [js ''human'', js ''agent'', js ''representative'', js ''someone'',
     js ''escalate''])"

definition detectIntent :: "jsstring \<Rightarrow> Intent" where
  "detectIntent text =
     (let t = toLowerCase text;
          idMatch = matchGroup True idRe t 1;
          zipMatch = matchGroup False zipRe t 1
      in if test False orderStatusRe t then order_status idMatch
         else if test False shippingEtaRe t then shipping_eta idMatch zipMatch
         else if test False returnPolicyRe t then return_policy
         else if test False refundPolicyRe t then refund_policy
         else if test False accountHelpRe t then account_help
         else if test False escalateRe t then escalate
         else unknown)"

section \<open>Sentiment and tone\<close>

datatype Sentiment = positive | neutral | negative

definition negativeTerms :: "jsstring list" where
  "negativeTerms = [js ''angry'', js ''upset'', js ''frustrated'', js ''bad'', js ''hate'',
     js ''terrible'', js ''worst'', js ''unacceptable'', js ''late'', js ''delay'', js ''broken'',
     js ''missing'']"

definition positiveTerms :: "jsstring list" where
  "positiveTerms = [js ''great'', js ''thanks'', js ''thank you'', js ''awesome'', js ''perfect'',
     js ''good'', js ''love'']"

definition analyzeSentiment :: "jsstring \<Rightarrow> Sentiment" where
  "analyzeSentiment text =
     (let t = toLowerCase text;
          neg = test False (Group 1 (alts negativeTerms)) t;
          pos = test False (Group 1 (alts positiveTerms)) t
      in if neg \<and> \<not> pos then negative
         else if pos \<and> \<not> neg then positive
         else neutral)"

definition applyTone :: "jsstring \<Rightarrow> jsstring \<Rightarrow> jsstring" where
  "applyTone reply userText =
     (let sentiment = analyzeSentiment userText
      in if sentiment = negative
         then js ''I'' @ [8217] @ js ''m really sorry for the trouble. '' @ reply
         else if sentiment = positive then js ''Happy to hear that! '' @ reply
         else reply)"

section \<open>Tools\<close>

record ToolResult =
  title :: jsstring
  body :: jsstring

text \<open>
  A double in \<open>[0, 1)\<close>, as \<open>Math.random()\<close> returns it: the number \<open>mant / 2 ^ expo\<close>.
  Every such double has this form with a significand below \<open>2 ^ 53\<close> and an exponent of at
  most 1074, and every number of this form below 1 is a double.
\<close>

record double =
  mant :: nat
  expo :: nat

definition validRandom :: "double \<Rightarrow> bool" where
  "validRandom x = (mant x < 2 ^ 53 \<and> mant x < 2 ^ expo x \<and> expo x \<le> 1074)"

fun bitLength :: "nat \<Rightarrow> nat" where
  "bitLength n = (if n = 0 then 0 else Suc (bitLength (n div 2)))"

text \<open>\<open>p / 2 ^ s\<close> rounded to the nearest integer, a tie to the even one.\<close>

definition roundShift :: "nat \<Rightarrow> nat \<Rightarrow> nat" where
  "roundShift p s =
     (let d = p div 2 ^ s; r = p mod 2 ^ s
      in if 2 ^ s < 2 * r \<or> (2 * r = 2 ^ s \<and> odd d) then d + 1 else d)"

text \<open>
  \<open>Math.floor(x * n)\<close> for a double \<open>x\<close> of \<open>[0, 1)\<close> and a small positive integer \<open>n\<close>:
  the product is the double nearest to the exact one, so its significand \<open>mant x * n\<close> is
  rounded to 53 bits, a tie to the even neighbour; then the integer part is taken.
\<close>

definition floorTimes :: "double \<Rightarrow> nat \<Rightarrow> nat" where
  "floorTimes x n =
     (let p = mant x * n;
          s = bitLength p - 53;
          q = roundShift p s
      in (q * 2 ^ s) div 2 ^ expo x)"

text \<open>
  What a turn takes from outside the program: \<open>random\<close> is the value of \<open>Math.random()\<close>
  where a tool draws, \<open>random36\<close> is the text of \<open>Math.random().toString(36)\<close> where the
  ticket is drawn (the digits of that conversion are left to the implementation by the
  standard), \<open>etaDate d\<close> is \<open>new Date(Date.now() + d days).toDateString()\<close>, and
  \<open>generateContent\<close> is the language model: the text of its response, or \<open>None\<close> when the
  call throws or rejects.
\<close>

record env =
  random :: double
  random36 :: jsstring
  etaDate :: "nat \<Rightarrow> jsstring"
  generateContent :: "jsstring \<Rightarrow> jsstring option"

definition statusList :: "jsstring list" where
  "statusList = [js ''Processing'', js ''Packed'', js ''Shipped'', js ''Out for delivery'',
     js ''Delivered'']"

text \<open>\<open>!x\<close> on an optional string: true for \<open>undefined\<close> and for the empty string.\<close>

definition falsy :: "jsstring option \<Rightarrow> bool" where
  "falsy x = (case x of None \<Rightarrow> True | Some v \<Rightarrow> v = [])"

text \<open>An array read out of range is \<open>undefined\<close>, which a template prints as that word.\<close>

definition toolOrderStatus :: "env \<Rightarrow> jsstring option \<Rightarrow> ToolResult" where
  "toolOrderStatus e orderId =
     (if falsy orderId
      then \<lparr>title = js ''Order status'',
            body = js ''I can check that'' @ [8212]
              @ js ''please share your order ID (e.g., ORD-12345).''\<rparr>
      else let k = floorTimes (random e) (length statusList);
               status = (if k < length statusList then statusList ! k else js ''undefined'')
           in \<lparr>title = js ''Order status'',
               body = js ''Order '' @ the orderId @ js '' is currently: '' @ status
                 @ js ''. If this seems wrong, I can escalate to a human.''\<rparr>)"

definition toolShippingEta :: "env \<Rightarrow> jsstring option \<Rightarrow> jsstring option \<Rightarrow> ToolResult" where
  "toolShippingEta e orderId postalCode =
     (if falsy orderId \<or> falsy postalCode
      then \<lparr>title = js ''Shipping ETA'',
            body = js ''Share your order ID and destination ZIP to estimate delivery.''\<rparr>
      else let days = 2 + floorTimes (random e) 4
           in \<lparr>title = js ''Shipping ETA'',
               body = js ''Estimated delivery for '' @ the orderId @ js '' to ''
                 @ the postalCode @ js '': '' @ etaDate e days @ js ''.''\<rparr>)"

definition toolReturnPolicy :: ToolResult where
  "toolReturnPolicy = \<lparr>title = js ''Return policy'',
     body = js ''You can return most items within 30 days in original condition. Start in My Orders > Return. Prepaid label provided in eligible regions.''\<rparr>"

definition toolRefundPolicy :: ToolResult where
  "toolRefundPolicy = \<lparr>title = js ''Refund policy'',
     body = js ''Refunds are issued to the original payment method within 5'' @ [8211]
       @ js ''7 business days after we receive your return.''\<rparr>"

definition toolAccountHelp :: ToolResult where
  "toolAccountHelp = \<lparr>title = js ''Account help'',
     body = js ''For password resets, use Forgot Password on the sign-in page. For email or profile changes, go to Account Settings.''\<rparr>"

fun runToolForIntent :: "env \<Rightarrow> Intent \<Rightarrow> ToolResult option" where
  "runToolForIntent e (order_status orderId) = Some (toolOrderStatus e orderId)"
| "runToolForIntent e (shipping_eta orderId postalCode) =
     Some (toolShippingEta e orderId postalCode)"
| "runToolForIntent e return_policy = Some toolReturnPolicy"
| "runToolForIntent e refund_policy = Some toolRefundPolicy"
| "runToolForIntent e account_help = Some toolAccountHelp"
| "runToolForIntent e escalate =
     Some \<lparr>title = js ''Escalation'',
       body = js ''I can connect you with a human agent. Please confirm: type '' @ [39]
         @ js ''yes'' @ [39] @ js '' to proceed or ask anything else to continue with me.''\<rparr>"
| "runToolForIntent e unknown = None"

section \<open>Component state\<close>

datatype Role = user | model

record ChatMessage =
  role :: Role
  content :: jsstring

text \<open>
  A pending \<open>setTimeout(step, 16)\<close> of a stream: the closure of \<open>step\<close>, that is
  \<open>startIndex\<close>, \<open>fullText\<close> and the current value of its counter \<open>i\<close> (here \<open>ix\<close>).
\<close>

record stream =
  startIndex :: nat
  fullText :: jsstring
  ix :: nat

text \<open>
  The state of the component: its React state, the ref \<open>lastIntentRef\<close>, and the timers
  waiting in the event loop. No timer is ever cleared in the source, so a timer leaves the list
  only by firing. \<open>prompts\<close> records the texts handed to the language model, one per call.
\<close>

record state =
  messages :: "ChatMessage list"
  input :: jsstring
  loading :: bool
  suggestions :: "jsstring list"
  lastIntent :: Intent
  streamingIndex :: "nat option"
  timers :: "stream list"
  prompts :: "jsstring list"

section \<open>Streaming typing effect\<close>

text \<open>
  One run of \<open>step\<close>. It queues an updater, moves the counter on by
  \<open>max 1 (floor (length fullText / 120))\<close>, and either schedules the next run or resets the
  streaming index. React runs the queued updater at the next render, so the counter it reads
  is the one already moved on. The updater reads the message at
  \<open>min startIndex (length - 1)\<close>; when there is none, or it is not a model message, the list
  stays as it is; else the message becomes the prefix of the text of the counter's length.
  Queued updaters are applied in the order of their calls, each to the state the earlier ones
  left.
\<close>

definition step :: "stream \<Rightarrow> state \<Rightarrow> state" where
  "step st s =
     (let i' = ix st + max 1 (length (fullText st) div 120);
          copy = messages s;
          at' = min (int (startIndex st)) (int (length copy) - 1);
          s1 = (if at' < 0 \<or> role (copy ! nat at') \<noteq> model then s
                else s\<lparr>messages :=
                  copy[nat at' := \<lparr>role = model, content = slice (fullText st) 0 i'\<rparr>]\<rparr>)
      in if i' \<le> length (fullText st)
         then s1\<lparr>timers := timers s1 @ [st\<lparr>ix := i'\<rparr>]\<rparr>
         else s1\<lparr>streamingIndex := None\<rparr>)"

text \<open>
  \<open>streamModelReply\<close> reads \<open>messages\<close>, the constant of the render in which the function
  was created; \<open>msgs\<close> is that value. The state updates of the same event handler do not
  change it.
\<close>

definition streamModelReply :: "ChatMessage list \<Rightarrow> jsstring \<Rightarrow> state \<Rightarrow> state" where
  "streamModelReply msgs text s =
     (let s1 = s\<lparr>messages := messages s @ [\<lparr>role = model, content = []\<rparr>]\<rparr>;
          start = length msgs;
          s2 = s1\<lparr>streamingIndex := Some start\<rparr>
      in step \<lparr>startIndex = start, fullText = text, ix = 0\<rparr> s2)"

text \<open>The timer at place \<open>k\<close> of the queue fires.\<close>

definition tick :: "nat \<Rightarrow> state \<Rightarrow> state" where
  "tick k s =
     (if k < length (timers s)
      then step (timers s ! k) (s\<lparr>timers := take k (timers s) @ drop (Suc k) (timers s)\<rparr>)
      else s)"

section \<open>The dialogue controller\<close>

definition SUPPORT_SYSTEM_PROMPT :: jsstring where
  "SUPPORT_SYSTEM_PROMPT =
     js ''You are a helpful, empathetic customer support assistant for ACME Store.'' @ [10]
     @ js ''Policies:'' @ [10]
     @ js ''- Greet warmly, be concise, and ask clarifying questions when needed.'' @ [10]
     @ js ''- Never invent order data; if unknown, ask for order ID or email.'' @ [10]
     @ js ''- Provide step-by-step troubleshooting for common issues (orders, returns, refunds, shipping, account, payments).'' @ [10]
     @ js ''- Offer to escalate to a human agent when issues are sensitive or unresolved.'' @ [10]
     @ js ''- Keep answers under 6 sentences unless the user asks for more detail.''"

text \<open>\<open>/^(yes|yep|yeah|confirm|please)\b/i\<close>\<close>

definition affirmRe :: re where
  "affirmRe = Seq Bol
     (Seq (Group 1 (alts [js ''yes'', js ''yep'', js ''yeah'', js ''confirm'', js ''please'']))
       WordB)"

fun join :: "jsstring \<Rightarrow> jsstring list \<Rightarrow> jsstring" where
  "join sep [] = []"
| "join sep [x] = x"
| "join sep (x # xs) = x @ sep @ join sep xs"

definition renderTurn :: "ChatMessage \<Rightarrow> jsstring" where
  "renderTurn m = (if role m = user then js ''User: '' @ content m
                   else js ''Assistant: '' @ content m)"

text \<open>
  The prompt of the fallback: the system prompt and the transcript, one labelled turn per
  message, joined by blank lines.
\<close>

definition historyText :: "ChatMessage list \<Rightarrow> jsstring" where
  "historyText nextMessages =
     join [10, 10] (SUPPORT_SYSTEM_PROMPT # map renderTurn nextMessages)"

text \<open>The suggestions set after a tool answered, by the type of the intent.\<close>

fun toolSuggestions :: "Intent \<Rightarrow> jsstring list" where
  "toolSuggestions (order_status orderId) =
     [js ''Track shipping ETA'', js ''This seems wrong '' @ [8594] @ js '' escalate'',
      js ''Anything else?'']"
| "toolSuggestions (shipping_eta orderId postalCode) =
     [js ''Remind me if delayed'', js ''Change delivery address'', js ''Talk to a human'']"
| "toolSuggestions return_policy =
     [js ''Start a return'', js ''Refund timeline'', js ''Anything else?'']"
| "toolSuggestions refund_policy =
     [js ''Check return status'', js ''Payment method changes'', js ''Talk to a human'']"
| "toolSuggestions account_help =
     [js ''Reset password'', js ''Change email'', js ''Close account'']"
| "toolSuggestions escalate =
     [js ''Yes, connect me'', js ''No, continue here'', js ''Anything else?'']"
| "toolSuggestions unknown =
     [js ''Where is my order?'', js ''What'' @ [8217] @ js ''s your return policy?'',
      js ''Talk to a human'']"

definition apology :: ChatMessage where
  "apology = \<lparr>role = model,
     content = js ''Sorry, I ran into a problem generating a response. Please try again.''\<rparr>"

definition ticketReply :: "jsstring \<Rightarrow> jsstring" where
  "ticketReply ticketId =
     js ''Okay, connecting you to a human agent. I created support ticket #'' @ ticketId
     @ js ''. An agent will reach out by email shortly.''"

text \<open>
  One call of \<open>handleSend\<close>, from the render whose state is \<open>s\<close>. The handler runs to its
  end before the next event: the tools resolve at once, and while the language model is
  awaited the form is disabled and the pending reveal steps touch no state this handler reads.
\<close>

definition handleSend :: "env \<Rightarrow> state \<Rightarrow> state" where
  "handleSend e s =
     (let trimmed = trim (input s)
      in if trimmed = [] \<or> loading s then s
         else
           let msgs = messages s;
               nextMessages = msgs @ [\<lparr>role = user, content = trimmed\<rparr>];
               s1 = s\<lparr>loading := True, messages := nextMessages, input := []\<rparr>
           in if lastIntent s1 = escalate \<and> test True affirmRe trimmed
              then
                let ticketId = toUpperCase (slice (random36 e) 2 8);
                    reply = ticketReply ticketId;
                    s2 = streamModelReply msgs (applyTone reply trimmed) s1
                in s2\<lparr>suggestions := [js ''Add more details'', js ''Update my email'',
                          js ''Anything else?''],
                       loading := False\<rparr>
              else
                let intent = detectIntent trimmed;
                    s2 = s1\<lparr>lastIntent := intent\<rparr>
                in case runToolForIntent e intent of
                     Some toolResult \<Rightarrow>
                       let replyWithTone =
                             applyTone (title toolResult @ js '':'' @ [10] @ body toolResult)
                               trimmed;
                           s3 = streamModelReply msgs replyWithTone s2
                       in s3\<lparr>suggestions := toolSuggestions intent, loading := False\<rparr>
                   | None \<Rightarrow>
                       let prompt = historyText nextMessages;
                           s3 = s2\<lparr>prompts := prompts s2 @ [prompt]\<rparr>
                       in (case generateContent e prompt of
                             Some answer \<Rightarrow>
                               (streamModelReply msgs (applyTone answer trimmed) s3)
                                 \<lparr>suggestions := [js ''Track an order'',
                                    js ''Returns & refunds'', js ''Talk to a human''],
                                  loading := False\<rparr>
                           | None \<Rightarrow>
                               s3\<lparr>messages := messages s3 @ [apology], loading := False\<rparr>))"

definition initialState :: state where
  "initialState =
     \<lparr>messages = [\<lparr>role = model,
         content = js ''Hi! I'' @ [8217]
           @ js ''m your ACME support assistant. How can I help today?''\<rparr>],
      input = [], loading = False,
      suggestions = [js ''Where is my order?'',
        js ''What'' @ [8217] @ js ''s your return policy?'', js ''Talk to a human''],
      lastIntent = unknown, streamingIndex = None, timers = [], prompts = []\<rparr>"

text \<open>
  The events of the component: the user types a text and submits it, or a pending timer
  fires. \<open>runEvents\<close> is the state after a sequence of events.
\<close>

datatype event = Send jsstring env | Tick nat

fun applyEvent :: "state \<Rightarrow> event \<Rightarrow> state" where
  "applyEvent s (Send text e) = handleSend e (s\<lparr>input := text\<rparr>)"
| "applyEvent s (Tick k) = tick k s"

definition runEvents :: "event list \<Rightarrow> state \<Rightarrow> state" where
  "runEvents evs s = foldl applyEvent s evs"

section \<open>Running a stream to its end\<close>

text \<open>
  \<open>drain n\<close> fires the first pending timer, at most \<open>n\<close> times, until none is pending.
\<close>

fun drain :: "nat \<Rightarrow> state \<Rightarrow> state" where
  "drain 0 s = s"
| "drain (Suc n) s = (if timers s = [] then s else drain n (tick 0 s))"

text \<open>
  The index a pending reveal step holds names a user message: the state every turn leaves,
  since \<open>streamModelReply\<close> counts the messages of the render, before the user message and
  the empty model message were appended.
\<close>

definition pointsAtUser :: "ChatMessage list \<Rightarrow> stream \<Rightarrow> bool" where
  "pointsAtUser msgs st = (startIndex st < length msgs \<and> role (msgs ! startIndex st) = user)"

definition stale :: "state \<Rightarrow> bool" where
  "stale s = list_all (pointsAtUser (messages s)) (timers s)"

section \<open>The specification's notions\<close>

text \<open>
  A term of a list occurs in a text: it is a contiguous part of the text, letters compared
  without case.
\<close>

definition termOccurs :: "jsstring list \<Rightarrow> jsstring \<Rightarrow> bool" where
  "termOccurs terms text = (\<exists>w\<in>set terms. sublist w (toLowerCase text))"

text \<open>
  A standalone run of five digits at position \<open>p\<close>, optionally suffixed by a hyphen and four
  digits: no word character before the five digits, and none after them or after the suffix.
\<close>

definition digitsAt :: "jsstring \<Rightarrow> nat \<Rightarrow> nat \<Rightarrow> bool" where
  "digitsAt t p n = (p + n \<le> length t \<and> list_all isDigit (take n (drop p t)))"

definition zipAt :: "jsstring \<Rightarrow> nat \<Rightarrow> bool" where
  "zipAt t p = (digitsAt t p 5 \<and> (p = 0 \<or> \<not> isWordChar (t ! (p - 1)))
     \<and> ((length t \<le> p + 5 \<or> \<not> isWordChar (t ! (p + 5)))
        \<or> (p + 5 < length t \<and> t ! (p + 5) = 45 \<and> digitsAt t (p + 6) 4
           \<and> (length t \<le> p + 10 \<or> \<not> isWordChar (t ! (p + 10))))))"

definition firstZip :: "jsstring \<Rightarrow> jsstring option" where
  "firstZip t = map_option (\<lambda>p. take 5 (drop p t)) (List.find (zipAt t) [0..<length t])"

section \<open>Concrete environments\<close>

text \<open>
  \<open>Math.random()\<close> returns \<open>0.5\<close>, whose text in radix 36 is \<open>0.i\<close>, and the language model
  fails.
\<close>

definition envHalf :: env where
  "envHalf = \<lparr>random = \<lparr>mant = 1, expo = 1\<rparr>, random36 = js ''0.i'', etaDate = (\<lambda>d. js ''Thu Nov 05 2026''),
     generateContent = (\<lambda>p. None)\<rparr>"

text \<open>The state after the first turn \<open>Talk to a human\<close>: the escalation offer is open.\<close>

definition afterTalk :: state where
  "afterTalk = runEvents [Send (js ''Talk to a human'') envHalf] initialState"

text \<open>A bound on the runs of \<open>step\<close> a pending timer still has before its stream ends.\<close>

definition weight :: "stream \<Rightarrow> nat" where
  "weight st = Suc (Suc (length (fullText st)) - ix st)"

section \<open>Evaluation\<close>

lemmas chars = js_def isDigit_def isLower_def isUpper_def isWordChar_def isLineTerminator_def
  isWhiteSpace_def lowerUnit_def toLowerCase_def toUpperCase_def trim_def slice_def
  canonicalize_def

lemmas regex = run_def wordAt_def boundary_def exec_def test_def matchGroup_def

lemmas patterns = idRe_def zipRe_def orderStatusRe_def shippingEtaRe_def returnPolicyRe_def
  refundPolicyRe_def accountHelpRe_def escalateRe_def affirmRe_def

lemmas turn = runEvents_def handleSend_def initialState_def detectIntent_def
  streamModelReply_def step_def tick_def applyTone_def analyzeSentiment_def
  negativeTerms_def positiveTerms_def envHalf_def ticketReply_def Let_def

lemma afterTalk_state:
  "afterTalk =
     \<lparr>messages = [\<lparr>role = model,
         content = js ''Hi! I'' @ [8217]
           @ js ''m your ACME support assistant. How can I help today?''\<rparr>,
        \<lparr>role = user, content = js ''Talk to a human''\<rparr>,
        \<lparr>role = model, content = []\<rparr>],
      input = [], loading = False,
      suggestions = [js ''Yes, connect me'', js ''No, continue here'', js ''Anything else?''],
      lastIntent = escalate, streamingIndex = Some 1,
      timers = [\<lparr>startIndex = 1,
        fullText = js ''Escalation:'' @ [10]
          @ js ''I can connect you with a human agent. Please confirm: type '' @ [39]
          @ js ''yes'' @ [39] @ js '' to proceed or ask anything else to continue with me.'',
        ix = 1\<rparr>],
      prompts = []\<rparr>"
  by (simp add: afterTalk_def turn chars regex patterns)

section \<open>Priority of the classification rules\<close>

text \<open>
  C5. Whenever the lower-cased text matches the order-status pattern, and so whenever it
  matches both that pattern and the shipping-ETA pattern, \<open>detectIntent\<close> answers
  \<open>order_status\<close>, with the order id the extraction pattern captures, and not
  \<open>shipping_eta\<close>.
\<close>

theorem detectIntent_order_status_first:
  assumes "test False orderStatusRe (toLowerCase text)"
    and "test False shippingEtaRe (toLowerCase text)"
  shows "detectIntent text = order_status (matchGroup True idRe (toLowerCase text) 1)
    \<and> detectIntent text \<noteq> shipping_eta a b"
  using assms by (simp add: detectIntent_def Let_def)

theorem detectIntent_order_status_first_witness:
  "test False orderStatusRe (toLowerCase (js ''When can I track my order?''))
   \<and> test False shippingEtaRe (toLowerCase (js ''When can I track my order?''))
   \<and> detectIntent (js ''When can I track my order?'') = order_status None
   \<and> detectIntent (js ''When can I track my order?'') \<noteq> shipping_eta None None"
proof -
  let ?t = "js ''When can I track my order?''"
  have a: "test False orderStatusRe (toLowerCase ?t)"
    by (simp add: chars regex patterns)
  have b: "test False shippingEtaRe (toLowerCase ?t)"
    by (simp add: chars regex patterns)
  have c: "matchGroup True idRe (toLowerCase ?t) 1 = None"
    by (simp add: chars regex patterns)
  show ?thesis
    using detectIntent_order_status_first [OF a b, of None None] a b c by simp
qed

section \<open>Facts about the matcher\<close>

lemma canonicalize_False [simp]: "canonicalize False = (\<lambda>c. c)"
  by (rule ext) (simp add: canonicalize_def)

lemma ms_Lit_plain: "ms False t (Lit w) (p, c) \<noteq> [] \<longleftrightarrow> take (length w) (drop p t) = w"
  by simp

lemma ms_alts_plain:
  "ws \<noteq> [] \<Longrightarrow> ms False t (alts ws) (p, c) \<noteq> [] \<longleftrightarrow> (\<exists>w\<in>set ws. take (length w) (drop p t) = w)"
  by (induction ws rule: alts.induct) auto

lemma ms_Group_empty: "ms ic t (Group g a) (p, c) = [] \<longleftrightarrow> ms ic t a (p, c) = []"
  by simp

lemma search_None: "search ic t r ps = None \<longleftrightarrow> (\<forall>p\<in>set ps. ms ic t r (p, []) = [])"
  by (induction ps) (auto split: list.splits)

lemma test_iff: "test ic r t \<longleftrightarrow> (\<exists>p\<le>length t. ms ic t r (p, []) \<noteq> [])"
  by (simp add: test_def exec_def search_None del: upt_Suc) (auto simp: less_Suc_eq_le)

lemma sublist_take_drop: "sublist w t \<longleftrightarrow> (\<exists>p\<le>length t. take (length w) (drop p t) = w)"
proof
  assume "sublist w t"
  then obtain ps ss where "t = ps @ w @ ss" by (auto simp: sublist_def)
  then have "length ps \<le> length t \<and> take (length w) (drop (length ps) t) = w" by simp
  then show "\<exists>p\<le>length t. take (length w) (drop p t) = w" by blast
next
  assume "\<exists>p\<le>length t. take (length w) (drop p t) = w"
  then obtain p where p: "take (length w) (drop p t) = w" by blast
  have "t = take p t @ take (length w) (drop p t) @ drop (length w) (drop p t)"
    by (simp only: append_take_drop_id)
  with p have "t = take p t @ w @ drop (length w) (drop p t)" by simp
  then show "sublist w t" unfolding sublist_def by blast
qed

lemma test_terms: "ws \<noteq> [] \<Longrightarrow> test False (Group g (alts ws)) t \<longleftrightarrow> (\<exists>w\<in>set ws. sublist w t)"
  unfolding test_iff sublist_take_drop
  using ms_alts_plain[of ws t] by (auto simp del: ms.simps simp: ms_Group_empty) 

section \<open>The sentiment policy\<close>

text \<open>
  C8. \<open>analyzeSentiment\<close> is \<open>negative\<close> exactly when a negative term occurs in the text and
  no positive term does, \<open>positive\<close> exactly when a positive term occurs and no negative term
  does, and \<open>neutral\<close> exactly when terms of both lists occur or of neither; so a text with a
  positive and a negative term is \<open>neutral\<close>.
\<close>

theorem analyzeSentiment_policy:
  "(analyzeSentiment text = negative \<longleftrightarrow>
      termOccurs negativeTerms text \<and> \<not> termOccurs positiveTerms text)
   \<and> (analyzeSentiment text = positive \<longleftrightarrow>
      termOccurs positiveTerms text \<and> \<not> termOccurs negativeTerms text)
   \<and> (analyzeSentiment text = neutral \<longleftrightarrow>
      (termOccurs negativeTerms text \<and> termOccurs positiveTerms text)
      \<or> (\<not> termOccurs negativeTerms text \<and> \<not> termOccurs positiveTerms text))"
proof -
  have n: "negativeTerms \<noteq> []" and p: "positiveTerms \<noteq> []"
    by (simp_all add: negativeTerms_def positiveTerms_def)
  show ?thesis
    by (simp add: analyzeSentiment_def Let_def termOccurs_def test_terms [OF n] test_terms [OF p])
qed


theorem analyzeSentiment_policy_witness:
  "termOccurs negativeTerms (js ''Thanks, but it is LATE'')
   \<and> termOccurs positiveTerms (js ''Thanks, but it is LATE'')
   \<and> analyzeSentiment (js ''Thanks, but it is LATE'') = neutral"
proof -
  let ?x = "js ''Thanks, but it is LATE''"
  have "test False (Group 1 (alts negativeTerms)) (toLowerCase ?x)"
    by (simp add: chars regex negativeTerms_def)
  moreover have "negativeTerms \<noteq> []" by (simp add: negativeTerms_def)
  ultimately have n: "termOccurs negativeTerms ?x"
    unfolding termOccurs_def using test_terms [of negativeTerms 1 "toLowerCase ?x"] by blast
  have "test False (Group 1 (alts positiveTerms)) (toLowerCase ?x)"
    by (simp add: chars regex positiveTerms_def)
  moreover have "positiveTerms \<noteq> []" by (simp add: positiveTerms_def)
  ultimately have p: "termOccurs positiveTerms ?x"
    unfolding termOccurs_def using test_terms [of positiveTerms 1 "toLowerCase ?x"] by blast
  show ?thesis
    using analyzeSentiment_policy [of ?x] n p by simp
qed

section \<open>The postal code of a shipping-ETA intent\<close>

lemma le_length_takeWhile:
  "n \<le> length (takeWhile P xs) \<longleftrightarrow> n \<le> length xs \<and> list_all P (take n xs)"
proof (induction xs arbitrary: n)
  case Nil
  then show ?case by simp
next
  case (Cons x xs)
  then show ?case by (cases n) auto
qed

lemma inClass_Digit [simp]: "inClass ic Digit = isDigit"
  by (rule ext) simp

lemma run_Digit: "0 < n \<Longrightarrow> n \<le> run ic t Digit p \<longleftrightarrow> digitsAt t p n"
  by (auto simp: run_def digitsAt_def le_length_takeWhile)

lemma take1_drop: "take (Suc 0) (drop q t) = [x] \<longleftrightarrow> q < length t \<and> t ! q = x"
  by (cases "q < length t") (auto simp: take_Suc_conv_app_nth hd_drop_conv_nth take_Suc)

lemma ms_zipRe:
  "ms False t zipRe (p, []) =
     (if boundary t p \<and> digitsAt t p 5
      then (if p + 5 < length t \<and> t ! (p + 5) = 45 \<and> digitsAt t (p + 6) 4 \<and> boundary t (p + 10)
            then [(p + 10, [(1, slice t p (p + 5))])] else [])
           @ (if boundary t (p + 5) then [(p + 5, [(1, slice t p (p + 5))])] else [])
      else [])"
  by (simp add: zipRe_def js_def run_Digit take1_drop add.commute add.left_commute)


lemma digitsAt_nth: "digitsAt t p n \<Longrightarrow> k < n \<Longrightarrow> p + k < length t \<and> isDigit (t ! (p + k))"
  by (auto simp: digitsAt_def list_all_length)

lemma digit_word: "isDigit c \<Longrightarrow> isWordChar c"
  by (simp add: isWordChar_def)

lemma boundary_start:
  assumes "digitsAt t p n" and "0 < n"
  shows "boundary t p \<longleftrightarrow> (p = 0 \<or> \<not> isWordChar (t ! (p - 1)))"
proof -
  from digitsAt_nth [OF assms(1), of 0] assms(2) have "p < length t" "isDigit (t ! p)" by auto
  then have "wordAt t p" by (simp add: wordAt_def digit_word)
  moreover have "p \<noteq> 0 \<Longrightarrow> wordAt t (p - 1) = isWordChar (t ! (p - 1))"
    using \<open>p < length t\<close> by (simp add: wordAt_def less_imp_diff_less)
  ultimately show ?thesis by (auto simp: boundary_def)
qed

lemma boundary_end:
  assumes "digitsAt t p n" and "0 < n"
  shows "boundary t (p + n) \<longleftrightarrow> (length t \<le> p + n \<or> \<not> isWordChar (t ! (p + n)))"
proof -
  from digitsAt_nth [OF assms(1), of "n - 1"] assms(2)
  have "p + (n - 1) < length t" "isDigit (t ! (p + (n - 1)))" by auto
  moreover have "p + n - 1 = p + (n - 1)" using assms(2) by simp
  ultimately have "wordAt t (p + n - 1)" by (simp add: wordAt_def digit_word)
  then show ?thesis using assms(2) by (auto simp: boundary_def wordAt_def)
qed

lemma ms_zipRe_nonempty: "ms False t zipRe (p, []) \<noteq> [] \<longleftrightarrow> zipAt t p"
proof (cases "digitsAt t p 5")
  case False
  then show ?thesis by (simp add: ms_zipRe zipAt_def)
next
  case d: True
  have s: "boundary t p \<longleftrightarrow> (p = 0 \<or> \<not> isWordChar (t ! (p - 1)))"
    using boundary_start [OF d] by simp
  have e: "boundary t (p + 5) \<longleftrightarrow> (length t \<le> p + 5 \<or> \<not> isWordChar (t ! (p + 5)))"
    using boundary_end [OF d] by simp
  have f: "boundary t (p + 10) \<longleftrightarrow> (length t \<le> p + 10 \<or> \<not> isWordChar (t ! (p + 10)))"
    if "digitsAt t (p + 6) 4"
    using boundary_end [OF that] by (simp add: add.assoc)
  show ?thesis
    unfolding ms_zipRe zipAt_def using d s e f by auto
qed

lemma ms_zipRe_capture:
  "m \<in> set (ms False t zipRe (p, [])) \<Longrightarrow> map_of (snd m) (Suc 0) = Some (take 5 (drop p t))"
  by (auto simp: ms_zipRe slice_def split: if_splits)

lemma search_find:
  "search ic t r ps =
     map_option (\<lambda>p. hd (ms ic t r (p, []))) (List.find (\<lambda>p. ms ic t r (p, []) \<noteq> []) ps)"
  by (induction ps) (auto split: list.splits)

lemma not_zipAt_end: "\<not> zipAt t (length t)"
  by (simp add: zipAt_def digitsAt_def)

lemma find_snoc:
  "List.find P (xs @ [x]) =
     (case List.find P xs of None \<Rightarrow> (if P x then Some x else None) | Some y \<Rightarrow> Some y)"
  by (induction xs) auto

lemma find_upt_Suc: "\<not> P n \<Longrightarrow> List.find P [0..<Suc n] = List.find P [0..<n]"
  by (simp add: find_snoc split: option.splits)

lemma matchGroup_zipRe: "matchGroup False zipRe t (Suc 0) = firstZip t"
proof (cases "List.find (zipAt t) [0..<length t]")
  case None
  then show ?thesis
    by (simp add: matchGroup_def exec_def search_find ms_zipRe_nonempty firstZip_def
        find_upt_Suc not_zipAt_end del: upt_Suc)
next
  case (Some p)
  then have "zipAt t p" by (auto simp: find_Some_iff)
  then have "ms False t zipRe (p, []) \<noteq> []" by (simp add: ms_zipRe_nonempty)
  then have "hd (ms False t zipRe (p, [])) \<in> set (ms False t zipRe (p, []))" by simp
  from ms_zipRe_capture [OF this] Some show ?thesis
    by (auto simp add: matchGroup_def exec_def search_find ms_zipRe_nonempty firstZip_def
        find_upt_Suc not_zipAt_end split: prod.splits simp del: upt_Suc)
qed

text \<open>
  C10. When \<open>detectIntent\<close> answers \<open>shipping_eta\<close>, its postal code is the first standalone
  run of five digits (optionally suffixed by a hyphen and four digits) of the lower-cased
  text, wherever it stands, also inside the order id: for \<open>When will order ord-99021 arrive?\<close>
  the order id is \<open>ord-99021\<close> and the postal code is \<open>99021\<close>, taken from it.
\<close>

theorem postalCode_first_zip:
  "(detectIntent text = shipping_eta orderId postalCode \<longrightarrow>
      postalCode = firstZip (toLowerCase text))
   \<and> detectIntent (js ''When will order ord-99021 arrive?'')
       = shipping_eta (Some (js ''ord-99021'')) (Some (js ''99021''))"
proof
  show "detectIntent text = shipping_eta orderId postalCode \<longrightarrow>
      postalCode = firstZip (toLowerCase text)"
    by (auto simp: detectIntent_def Let_def matchGroup_zipRe split: if_splits)
  show "detectIntent (js ''When will order ord-99021 arrive?'')
       = shipping_eta (Some (js ''ord-99021'')) (Some (js ''99021''))"
    by (simp add: detectIntent_def chars regex patterns)
qed

theorem postalCode_first_zip_witness:
  "detectIntent (js ''Is the delivery to 12345-6789 for order ord-99021 on time?'')
     = shipping_eta (Some (js ''ord-99021'')) (Some (js ''12345''))
   \<and> firstZip (toLowerCase (js ''Is the delivery to 12345-6789 for order ord-99021 on time?''))
     = Some (js ''12345'')"
proof -
  let ?x = "js ''Is the delivery to 12345-6789 for order ord-99021 on time?''"
  have d: "detectIntent ?x = shipping_eta (Some (js ''ord-99021'')) (Some (js ''12345''))"
    by (simp add: detectIntent_def chars regex patterns)
  from postalCode_first_zip [of ?x "Some (js ''ord-99021'')" "Some (js ''12345'')"] d
  show ?thesis by simp
qed

section \<open>Reveal steps and the transcript\<close>

lemma step_fields [simp]:
  "lastIntent (step st s) = lastIntent s"
  "loading (step st s) = loading s"
  "prompts (step st s) = prompts s"
  "input (step st s) = input s"
  "suggestions (step st s) = suggestions s"
  by (simp_all add: step_def Let_def)

lemma step_timers:
  "timers (step st s) = timers s @
     (if ix st + max 1 (length (fullText st) div 120) \<le> length (fullText st)
      then [st\<lparr>ix := ix st + max 1 (length (fullText st) div 120)\<rparr>] else [])"
  by (simp add: step_def Let_def)

lemma step_messages_user:
  "pointsAtUser (messages s) st \<Longrightarrow> messages (step st s) = messages s"
  by (auto simp: step_def Let_def pointsAtUser_def min_def)

lemma pointsAtUser_ix [simp]: "pointsAtUser msgs (st\<lparr>ix := k\<rparr>) = pointsAtUser msgs st"
  by (simp add: pointsAtUser_def)

lemma pointsAtUser_append: "pointsAtUser msgs st \<Longrightarrow> pointsAtUser (msgs @ extra) st"
  by (simp add: pointsAtUser_def nth_append)

lemma stale_step:
  assumes "stale s" and "pointsAtUser (messages s) st"
  shows "stale (step st s)"
  using assms by (simp add: stale_def step_timers step_messages_user)

lemma tick_messages: "stale s \<Longrightarrow> messages (tick k s) = messages s"
  by (auto simp: tick_def stale_def list_all_length intro!: step_messages_user [THEN trans])

lemma stale_tick: "stale s \<Longrightarrow> stale (tick k s)"
proof (cases "k < length (timers s)")
  case False
  assume "stale s" with False show ?thesis by (simp add: tick_def)
next
  case True
  assume st: "stale s"
  let ?s = "s\<lparr>timers := take k (timers s) @ drop (Suc k) (timers s)\<rparr>"
  have a: "pointsAtUser (messages ?s) (timers s ! k)"
    using st True by (simp add: stale_def list_all_length)
  have "set (take k (timers s) @ drop (Suc k) (timers s)) \<subseteq> set (timers s)"
    by (auto dest: in_set_takeD in_set_dropD)
  then have b: "stale ?s" using st by (auto simp: stale_def list_all_iff)
  from stale_step [OF b a] True show ?thesis by (simp add: tick_def)
qed

lemma streamModelReply_fields [simp]:
  "lastIntent (streamModelReply msgs text s) = lastIntent s"
  "loading (streamModelReply msgs text s) = loading s"
  "prompts (streamModelReply msgs text s) = prompts s"
  by (simp_all add: streamModelReply_def Let_def)

lemma streamModelReply_messages:
  assumes "messages s = msgs @ [\<lparr>role = user, content = x\<rparr>]"
  shows "messages (streamModelReply msgs text s)
    = msgs @ [\<lparr>role = user, content = x\<rparr>, \<lparr>role = model, content = []\<rparr>]"
proof -
  let ?s = "s\<lparr>messages := messages s @ [\<lparr>role = model, content = []\<rparr>],
    streamingIndex := Some (length msgs)\<rparr>"
  have "pointsAtUser (messages ?s) \<lparr>startIndex = length msgs, fullText = text, ix = 0\<rparr>"
    using assms by (simp add: pointsAtUser_def nth_append)
  from step_messages_user [OF this] assms show ?thesis
    by (simp add: streamModelReply_def Let_def)
qed

lemma stale_streamModelReply:
  assumes "messages s = msgs @ [\<lparr>role = user, content = x\<rparr>]" and "stale s"
  shows "stale (streamModelReply msgs text s)"
proof -
  let ?s = "s\<lparr>messages := messages s @ [\<lparr>role = model, content = []\<rparr>],
    streamingIndex := Some (length msgs)\<rparr>"
  have a: "pointsAtUser (messages ?s) \<lparr>startIndex = length msgs, fullText = text, ix = 0\<rparr>"
    using assms by (simp add: pointsAtUser_def nth_append)
  have b: "stale ?s"
    using assms(2) by (auto simp: stale_def list_all_iff intro: pointsAtUser_append)
  from stale_step [OF b a] show ?thesis
    by (simp add: streamModelReply_def Let_def)
qed

lemma stale_update [simp]:
  "stale (s\<lparr>suggestions := x\<rparr>) = stale s"
  "stale (s\<lparr>loading := y\<rparr>) = stale s"
  "stale (s\<lparr>input := z\<rparr>) = stale s"
  "stale (s\<lparr>lastIntent := i\<rparr>) = stale s"
  "stale (s\<lparr>prompts := q\<rparr>) = stale s"
  by (simp_all add: stale_def)

lemma stale_messages_append: "stale s \<Longrightarrow> stale (s\<lparr>messages := messages s @ extra\<rparr>)"
  by (auto simp: stale_def list_all_iff intro: pointsAtUser_append)

lemma stale_grow:
  "stale s \<Longrightarrow> timers s' = timers s \<Longrightarrow> messages s' = messages s @ extra \<Longrightarrow> stale s'"
  by (auto simp: stale_def list_all_iff intro: pointsAtUser_append)

lemma stale_handleSend:
  assumes st: "stale s"
  shows "stale (handleSend e s)"
proof -
  have u: "stale (s\<lparr>loading := True,
      messages := messages s @ [\<lparr>role = user, content = x\<rparr>], input := []\<rparr>)" for x
    by (rule stale_grow [OF st, where extra = "[\<lparr>role = user, content = x\<rparr>]"]) simp_all
  have a: "stale (s\<lparr>input := [], lastIntent := i, prompts := q,
      messages := messages s @ [\<lparr>role = user, content = x\<rparr>, apology]\<rparr>)" for x i q
    by (rule stale_grow [OF st, where extra = "[\<lparr>role = user, content = x\<rparr>, apology]"])
      simp_all
  show ?thesis
    using st u a
    by (auto simp: handleSend_def Let_def intro!: stale_streamModelReply split: option.splits)
qed

lemma stale_initial: "stale initialState"
  by (simp add: stale_def initialState_def)

lemma stale_applyEvent: "stale s \<Longrightarrow> stale (applyEvent s ev)"
  by (cases ev) (simp_all add: stale_handleSend stale_tick)

lemma stale_foldl: "stale s \<Longrightarrow> stale (foldl applyEvent s evs)"
  by (induction evs arbitrary: s) (simp_all add: stale_applyEvent)

lemma stale_runEvents: "stale s \<Longrightarrow> stale (runEvents evs s)"
  by (simp add: runEvents_def stale_foldl)

lemma ticks_messages: "stale s \<Longrightarrow> messages (runEvents (map Tick ks) s) = messages s"
proof (induction ks arbitrary: s)
  case Nil
  then show ?case by (simp add: runEvents_def)
next
  case (Cons k ks)
  from Cons.IH [OF stale_tick [OF Cons.prems]] tick_messages [OF Cons.prems]
  show ?case by (simp add: runEvents_def)
qed

text \<open>
  C4. In a state the component reaches, streams possibly in flight, let a new turn start.
  Whatever reveal steps fire afterwards, those of the prior streams included, the transcript
  stays as the new turn left it: none overwrites the content of the newly appended model
  message, and none changes an older message.
\<close>

theorem prior_steps_change_no_message:
  assumes "s = runEvents evs initialState"
    and "s' = applyEvent s (Send text e)"
  shows "messages (runEvents (map Tick ks) s') = messages s'"
  using assms ticks_messages stale_applyEvent stale_runEvents stale_initial by blast

theorem prior_steps_change_no_message_witness:
  "timers (runEvents [Send (js ''Talk to a human'') envHalf, Tick 0] initialState) \<noteq> []
   \<and> messages (runEvents (map Tick [0, 0, 1])
        (applyEvent (runEvents [Send (js ''Talk to a human'') envHalf, Tick 0] initialState)
          (Send (js ''yes please'') envHalf)))
     = messages (applyEvent
          (runEvents [Send (js ''Talk to a human'') envHalf, Tick 0] initialState)
          (Send (js ''yes please'') envHalf))"
proof -
  have "timers (runEvents [Send (js ''Talk to a human'') envHalf, Tick 0] initialState) \<noteq> []"
    by (simp add: runEvents_def handleSend_def initialState_def detectIntent_def
        streamModelReply_def step_def tick_def applyTone_def analyzeSentiment_def
        negativeTerms_def positiveTerms_def envHalf_def chars regex patterns Let_def)
  with prior_steps_change_no_message [OF refl refl,
      of "[0, 0, 1]" "[Send (js ''Talk to a human'') envHalf, Tick 0]" "js ''yes please''" envHalf]
  show ?thesis by simp
qed

section \<open>Streaming to the end\<close>

lemma drain_no_timers: "timers s = [] \<Longrightarrow> drain n s = s"
  by (cases n) simp_all

lemma drain_messages: "stale s \<Longrightarrow> messages (drain n s) = messages s"
proof (induction n arbitrary: s)
  case 0
  then show ?case by simp
next
  case (Suc n)
  from Suc.IH [OF stale_tick [OF Suc.prems]] tick_messages [OF Suc.prems]
  show ?case by simp
qed

lemma weight_tick:
  assumes "timers s \<noteq> []"
  shows "sum_list (map weight (timers (tick 0 s))) < sum_list (map weight (timers s))"
proof -
  from assms obtain st rest where t: "timers s = st # rest" by (cases "timers s") auto
  then show ?thesis
    by (auto simp: tick_def step_timers weight_def)
qed

lemma drain_empties: "sum_list (map weight (timers s)) \<le> n \<Longrightarrow> timers (drain n s) = []"
proof (induction n arbitrary: s)
  case 0
  then have "\<forall>st\<in>set (timers s). weight st = 0" by simp
  then show ?case by (cases "timers s") (auto simp: weight_def)
next
  case (Suc n)
  show ?case
  proof (cases "timers s = []")
    case True
    then show ?thesis by simp
  next
    case False
    from weight_tick [OF False] Suc.prems
    have "sum_list (map weight (timers (tick 0 s))) \<le> n" by simp
    from Suc.IH [OF this] False show ?thesis by simp
  qed
qed

text \<open>
  A stream on its own, started where the render's messages are the current ones, reveals the
  whole text: the last step that runs writes a prefix at least as long as the text.
\<close>

lemma drain_alone:
  assumes "messages s = M @ [\<lparr>role = model, content = c\<rparr>]"
    and "timers s = [\<lparr>startIndex = length M, fullText = reply, ix = i\<rparr>]"
    and "i \<le> length reply" and "length reply - i < n"
  shows "messages (drain n s) = M @ [\<lparr>role = model, content = reply\<rparr>]"
  using assms
proof (induction n arbitrary: s i c)
  case 0
  then show ?case by simp
next
  case (Suc n)
  let ?d = "max 1 (length reply div 120)"
  let ?s' = "tick 0 s"
  have m: "messages ?s' = M @ [\<lparr>role = model, content = take (i + ?d) reply\<rparr>]"
    using Suc.prems(1,2) by (simp add: tick_def step_def Let_def slice_def)
  show ?case
  proof (cases "i + ?d \<le> length reply")
    case True
    have t: "timers ?s' = [\<lparr>startIndex = length M, fullText = reply, ix = i + ?d\<rparr>]"
      using Suc.prems(2) True by (simp add: tick_def step_timers)
    have "length reply - (i + ?d) < n" using Suc.prems(4) True by simp
    from Suc.IH [OF m t True this] Suc.prems(2) show ?thesis by simp
  next
    case False
    then have t: "timers ?s' = []"
      using Suc.prems(2) by (simp add: tick_def step_timers)
    from False have "take (i + ?d) reply = reply" by simp
    with m drain_no_timers [OF t, of n] Suc.prems(2) show ?thesis by simp
  qed
qed

lemma stream_alone:
  assumes "timers s = []"
  shows "messages (drain (Suc (length reply)) (streamModelReply (messages s) reply s))
    = messages s @ [\<lparr>role = model, content = reply\<rparr>]"
proof -
  let ?d = "max 1 (length reply div 120)"
  let ?s' = "streamModelReply (messages s) reply s"
  have m: "messages ?s' = messages s @ [\<lparr>role = model, content = take ?d reply\<rparr>]"
    by (simp add: streamModelReply_def step_def Let_def slice_def)
  show ?thesis
  proof (cases "?d \<le> length reply")
    case True
    have t: "timers ?s' = [\<lparr>startIndex = length (messages s), fullText = reply, ix = ?d\<rparr>]"
      using assms True by (simp add: streamModelReply_def step_timers Let_def)
    have "length reply - ?d < Suc (length reply)" by simp
    from drain_alone [OF m t True this] show ?thesis .
  next
    case False
    then have t: "timers ?s' = []"
      using assms by (simp add: streamModelReply_def step_timers Let_def)
    from False have "take ?d reply = reply" by simp
    with m drain_no_timers [OF t] show ?thesis by simp
  qed
qed

text \<open>
  Whatever text a turn streams, and however many reveal steps fire afterwards, the model
  message appended for it stays empty.
\<close>

lemma reply_stays_empty:
  assumes "stale s" and "messages s = msgs @ [\<lparr>role = user, content = x\<rparr>]"
  shows "messages (runEvents (map Tick ks) (streamModelReply msgs reply s))
    = msgs @ [\<lparr>role = user, content = x\<rparr>, \<lparr>role = model, content = []\<rparr>]"
  using ticks_messages [OF stale_streamModelReply [OF assms(2,1)]]
    streamModelReply_messages [OF assms(2)] by simp

text \<open>
  C3. The first turn \<open>Talk to a human\<close> streams the escalation offer. Its reveal steps run to
  their end (no timer is left), and the model message appended for it is still empty: the
  steps address index \<open>messages.length\<close> of the render, where the user message stands, so
  each finds a user message and writes nothing. The content never becomes the text.
\<close>

theorem reply_never_revealed:
  "map fullText (timers afterTalk) = [js ''Escalation:'' @ [10]
        @ js ''I can connect you with a human agent. Please confirm: type '' @ [39]
        @ js ''yes'' @ [39] @ js '' to proceed or ask anything else to continue with me.'']
   \<and> timers (drain 200 afterTalk) = []
   \<and> map content (messages (drain 200 afterTalk))
     = [js ''Hi! I'' @ [8217] @ js ''m your ACME support assistant. How can I help today?'',
       js ''Talk to a human'', []]"
proof -
  have "stale afterTalk"
    unfolding afterTalk_def by (rule stale_runEvents [OF stale_initial])
  from drain_messages [OF this, of 200]
  have m: "messages (drain 200 afterTalk) = messages afterTalk" .
  have "sum_list (map weight (timers afterTalk)) \<le> 200"
    by (simp add: afterTalk_state weight_def js_def)
  from drain_empties [OF this] m show ?thesis
    by (simp add: afterTalk_state)
qed

section \<open>The ticket of an escalation\<close>

text \<open>
  An affirmative answer to an open offer streams the ticket confirmation, with the identifier
  cut from the radix-36 text of the random number, and calls neither the classifier's tools
  nor the language model.
\<close>

lemma applyTone_length: "length reply \<le> length (applyTone reply userText)"
  by (simp add: applyTone_def Let_def)

lemma streamModelReply_timers:
  assumes "reply \<noteq> []"
  shows "timers (streamModelReply msgs reply s) = timers s
    @ [\<lparr>startIndex = length msgs, fullText = reply, ix = max 1 (length reply div 120)\<rparr>]"
proof -
  have "length reply div 120 \<le> length reply" by (rule div_le_dividend)
  moreover have "1 \<le> length reply" using assms by (cases reply) simp_all
  ultimately have "max 1 (length reply div 120) \<le> length reply" by simp
  then show ?thesis by (simp add: streamModelReply_def step_timers Let_def)
qed

lemma ticket_turn:
  assumes "lastIntent s = escalate" and "test True affirmRe (trim (input s))"
    and "trim (input s) \<noteq> []" and "\<not> loading s"
  shows "map fullText (timers (handleSend e s)) = map fullText (timers s)
      @ [applyTone (ticketReply (toUpperCase (slice (random36 e) 2 8))) (trim (input s))]
    \<and> prompts (handleSend e s) = prompts s"
proof -
  let ?reply = "applyTone (ticketReply (toUpperCase (slice (random36 e) 2 8))) (trim (input s))"
  have "ticketReply (toUpperCase (slice (random36 e) 2 8)) \<noteq> []"
    by (simp add: ticketReply_def js_def)
  with applyTone_length [of "ticketReply (toUpperCase (slice (random36 e) 2 8))" "trim (input s)"]
  have "?reply \<noteq> []" by (cases ?reply) simp_all
  from streamModelReply_timers [OF this] assms show ?thesis
    by (simp add: handleSend_def Let_def)
qed

text \<open>The identifier has six characters only when that text has six or more after \<open>0.\<close>.\<close>

lemma ticketId_length: "length (toUpperCase (slice r 2 8)) = min 6 (length r - 2)"
  by (simp add: toUpperCase_def slice_def)

text \<open>
  C1. With the escalation offer open, \<open>yes please\<close> skips classification and streams the ticket
  confirmation. When \<open>Math.random()\<close> returns \<open>0.5\<close>, whose text in radix 36 is \<open>0.i\<close>, the
  ticket identifier is \<open>I\<close>: one character, not six.
\<close>

theorem ticket_id_one_character:
  "map fullText (timers (handleSend envHalf (afterTalk\<lparr>input := js ''yes please''\<rparr>)))
   = [js ''Escalation:'' @ [10]
        @ js ''I can connect you with a human agent. Please confirm: type '' @ [39]
        @ js ''yes'' @ [39] @ js '' to proceed or ask anything else to continue with me.'',
      js ''Okay, connecting you to a human agent. I created support ticket #I. An agent will reach out by email shortly.'']"
  by (simp add: afterTalk_state turn chars regex patterns)

section \<open>The escalation offer after a turn\<close>

text \<open>
  C2, as the claim states it, fails: after the affirmative answer \<open>yes please\<close> to an open
  offer, \<open>lastIntent\<close> is still \<open>escalate\<close>.
\<close>

theorem offer_stays_open:
  "lastIntent (handleSend envHalf (afterTalk\<lparr>input := js ''yes please''\<rparr>)) = escalate"
  by (simp add: afterTalk_state turn chars regex patterns)

text \<open>
  C2, amended. For every accepted turn that begins with \<open>lastIntent = escalate\<close>: on an
  affirmative input \<open>lastIntent\<close> is left as it is, \<open>escalate\<close>; on any other input
  classification runs and \<open>lastIntent\<close> becomes the intent of that input.
\<close>

theorem lastIntent_after_pending_turn:
  assumes "lastIntent s = escalate" and "trim (input s) \<noteq> []" and "\<not> loading s"
  shows "lastIntent (handleSend e s)
    = (if test True affirmRe (trim (input s)) then escalate else detectIntent (trim (input s)))"
  using assms by (simp add: handleSend_def Let_def split: option.splits)

theorem lastIntent_after_pending_turn_witness:
  "lastIntent (afterTalk\<lparr>input := js ''No thanks, where is my order?''\<rparr>) = escalate
   \<and> trim (input (afterTalk\<lparr>input := js ''No thanks, where is my order?''\<rparr>)) \<noteq> []
   \<and> \<not> loading (afterTalk\<lparr>input := js ''No thanks, where is my order?''\<rparr>)
   \<and> lastIntent (handleSend envHalf (afterTalk\<lparr>input := js ''No thanks, where is my order?''\<rparr>))
     = order_status None"
proof -
  let ?s = "afterTalk\<lparr>input := js ''No thanks, where is my order?''\<rparr>"
  have a: "lastIntent ?s = escalate" by (simp add: afterTalk_state)
  have b: "trim (input ?s) \<noteq> []" by (simp add: chars)
  have c: "\<not> loading ?s" by (simp add: afterTalk_state)
  have d: "\<not> test True affirmRe (trim (input ?s))" by (simp add: chars regex patterns)
  have e: "detectIntent (trim (input ?s)) = order_status None"
    by (simp add: detectIntent_def chars regex patterns)
  from lastIntent_after_pending_turn [OF a b c, of envHalf] a b c d e show ?thesis
    by simp
qed

section \<open>Failure of the language model\<close>

text \<open>
  C9. In a turn that reaches the language model (accepted input, no ticket confirmation,
  intent \<open>unknown\<close>) and whose call fails, the transcript gains the user message and the one
  fixed apology, written directly: no timer is scheduled and the streaming index is untouched.
  The model was called once, and \<open>loading\<close> is false afterwards.
\<close>

theorem model_failure_appends_apology:
  assumes "trim (input s) \<noteq> []" and "\<not> loading s"
    and "\<not> (lastIntent s = escalate \<and> test True affirmRe (trim (input s)))"
    and "detectIntent (trim (input s)) = unknown"
    and "generateContent e
      (historyText (messages s @ [\<lparr>role = user, content = trim (input s)\<rparr>])) = None"
  shows "messages (handleSend e s)
      = messages s @ [\<lparr>role = user, content = trim (input s)\<rparr>, apology]
    \<and> \<not> loading (handleSend e s)
    \<and> timers (handleSend e s) = timers s
    \<and> streamingIndex (handleSend e s) = streamingIndex s
    \<and> prompts (handleSend e s) = prompts s
        @ [historyText (messages s @ [\<lparr>role = user, content = trim (input s)\<rparr>])]"
  using assms by (auto simp add: handleSend_def Let_def)

theorem model_failure_appends_apology_witness:
  "messages (handleSend envHalf (initialState\<lparr>input := js '' hello there ''\<rparr>))
     = messages initialState @ [\<lparr>role = user, content = js ''hello there''\<rparr>,
         \<lparr>role = model,
          content = js ''Sorry, I ran into a problem generating a response. Please try again.''\<rparr>]
   \<and> \<not> loading (handleSend envHalf (initialState\<lparr>input := js '' hello there ''\<rparr>))
   \<and> timers (handleSend envHalf (initialState\<lparr>input := js '' hello there ''\<rparr>)) = []
   \<and> length (prompts (handleSend envHalf (initialState\<lparr>input := js '' hello there ''\<rparr>))) = 1"
proof -
  let ?s = "initialState\<lparr>input := js '' hello there ''\<rparr>"
  have t: "trim (input ?s) = js ''hello there''" by (simp add: chars)
  have a: "trim (input ?s) \<noteq> []" by (simp add: chars)
  have b: "\<not> loading ?s" by (simp add: initialState_def)
  have c: "\<not> (lastIntent ?s = escalate \<and> test True affirmRe (trim (input ?s)))"
    by (simp add: initialState_def)
  have d: "detectIntent (trim (input ?s)) = unknown"
    by (simp add: detectIntent_def chars regex patterns)
  have e: "generateContent envHalf
      (historyText (messages ?s @ [\<lparr>role = user, content = trim (input ?s)\<rparr>])) = None"
    by (simp add: envHalf_def)
  from model_failure_appends_apology [OF a b c d e] t show ?thesis
    by (simp add: apology_def initialState_def)
qed

section \<open>The product of the random number\<close>

declare bitLength.simps [simp del]

lemma bitLength_le: "n < 2 ^ j \<Longrightarrow> bitLength n \<le> j"
proof (induction j arbitrary: n)
  case 0
  then show ?case by (simp add: bitLength.simps)
next
  case (Suc j)
  show ?case
  proof (cases "n = 0")
    case True
    then show ?thesis by (simp add: bitLength.simps)
  next
    case False
    from Suc.prems have "n div 2 < 2 ^ j" by simp
    from Suc.IH [OF this] False show ?thesis by (subst bitLength.simps) simp
  qed
qed

lemma roundShift_bound: "2 * (roundShift p s * 2 ^ s) \<le> 2 * p + 2 ^ s"
proof -
  define k :: nat where "k = 2 ^ s"
  define d where "d = p div k"
  define r where "r = p mod k"
  have p: "p = d * k + r" by (simp add: d_def r_def)
  show ?thesis
  proof (cases "k < 2 * r \<or> (2 * r = k \<and> odd d)")
    case True
    then have "roundShift p s = d + 1"
      by (simp add: roundShift_def Let_def k_def d_def r_def)
    moreover from True have "k \<le> 2 * r" by auto
    ultimately show ?thesis unfolding k_def [symmetric] p by (simp add: algebra_simps)
  next
    case False
    then have "roundShift p s = d"
      by (simp add: roundShift_def Let_def k_def d_def r_def)
    then show ?thesis unfolding k_def [symmetric] p by (simp add: algebra_simps)
  qed
qed

lemma floorTimes_5:
  assumes "validRandom x"
  shows "floorTimes x 5 < 5"
proof -
  let ?p = "mant x * 5"
  let ?s = "bitLength ?p - 53"
  have m: "mant x < 2 ^ 53" "mant x < 2 ^ expo x" using assms by (simp_all add: validRandom_def)
  have "?p < 2 ^ 56" using m(1) by simp
  then have "bitLength ?p \<le> 56" by (rule bitLength_le)
  then have "?s \<le> 3" by simp
  then have "(2::nat) ^ ?s \<le> 2 ^ 3" by (rule power_increasing) simp
  with roundShift_bound [of ?p ?s] have "roundShift ?p ?s * 2 ^ ?s \<le> ?p + 4" by simp
  moreover have "?p + 4 < 5 * 2 ^ expo x" using m(2) by simp
  ultimately have "roundShift ?p ?s * 2 ^ ?s < 5 * 2 ^ expo x" by simp
  then have "(roundShift ?p ?s * 2 ^ ?s) div 2 ^ expo x < 5"
    by (simp add: less_mult_imp_div_less)
  then show ?thesis by (simp add: floorTimes_def Let_def)
qed

text \<open>
  The index drawn for \<open>0.5\<close> is 2. For the double nearest to \<open>0.6\<close> the product with 5 rounds
  to 3, and the index is 3, where the exact product would give 2.
\<close>

lemma bitLength_5: "bitLength 5 = 3"
  by (simp add: bitLength.simps)

lemma envHalf_floorTimes: "floorTimes (random envHalf) 5 = 2"
  by (simp add: envHalf_def floorTimes_def Let_def bitLength_5 roundShift_def)

lemma floorTimes_six_tenths: "floorTimes \<lparr>mant = 5404319552844595, expo = 53\<rparr> 5 = 3"
proof -
  have "bitLength 27021597764222975 = 55"
    by (simp add: bitLength.simps)
  moreover have "roundShift 27021597764222975 2 = 6755399441055744"
    by (simp add: roundShift_def Let_def)
  ultimately show ?thesis by (simp add: floorTimes_def Let_def)
qed

section \<open>The order id of the documented example\<close>

text \<open>
  C6. On \<open>Where is my order #ORD-99021?\<close> the intent is \<open>order_status\<close>, but the order id is
  \<open>-99021\<close>, not \<open>ORD-99021\<close>: in the lower-cased text the pattern matches \<open>#ord-99021\<close>
  (from 18 to 28), \<open>ord\<close> as the marker, and the group captures only what follows it. The tool
  then answers \<open>Order -99021 is currently: ...\<close>.
\<close>

theorem order_id_loses_marker:
  "detectIntent (js ''Where is my order #ORD-99021?'') = order_status (Some (js ''-99021''))
   \<and> exec True idRe (toLowerCase (js ''Where is my order #ORD-99021?''))
       = Some (28, [(1, js ''-99021'')])
   \<and> map_option body
        (runToolForIntent envHalf (detectIntent (js ''Where is my order #ORD-99021?'')))
       = Some (js ''Order -99021 is currently: Shipped. If this seems wrong, I can escalate to a human.'')"
proof -
  have len: "length statusList = 5" and n2: "statusList ! 2 = js ''Shipped''"
    by (simp_all add: statusList_def)
  have d: "detectIntent (js ''Where is my order #ORD-99021?'')
      = order_status (Some (js ''-99021''))"
    by (simp add: detectIntent_def chars regex patterns)
  have e: "exec True idRe (toLowerCase (js ''Where is my order #ORD-99021?''))
      = Some (28, [(1, js ''-99021'')])"
    by (simp add: chars regex patterns)
  have b: "body (toolOrderStatus envHalf (Some (js ''-99021'')))
      = js ''Order -99021 is currently: Shipped. If this seems wrong, I can escalate to a human.''"
    by (simp add: toolOrderStatus_def falsy_def len envHalf_floorTimes n2 Let_def js_def)
  from d e b show ?thesis by simp
qed

section \<open>The order-status tool\<close>

text \<open>
  The tool has one call site, \<open>runToolForIntent\<close> on the intent of \<open>detectIntent\<close>. An order id
  that arrives there is absent or is a capture of the group of the extraction pattern, which
  has five characters or more.
\<close>

lemma run_le: "run ic t k q \<le> length t - q"
  unfolding run_def using length_takeWhile_le [of "inClass ic k" "drop q t"] by simp

lemma ms_Group_AtLeast:
  assumes "m \<in> set (ms ic t (Group g (AtLeast n k)) (q, c))"
  shows "\<exists>w. snd m = (g, w) # c \<and> n \<le> length w"
proof -
  from assms obtain j where j: "n \<le> j" "j \<le> run ic t k q"
    and m: "m = (q + j, (g, slice t q (q + j)) # c)"
    by auto
  from j(2) run_le [of ic t k q] have "j \<le> length t - q" by simp
  then have "length (slice t q (q + j)) = j" by (simp add: slice_def)
  with j(1) m show ?thesis by simp
qed

lemma ms_Seq_mem:
  "m \<in> set (ms ic t (Seq a b) s) \<longleftrightarrow> (\<exists>s'\<in>set (ms ic t a s). m \<in> set (ms ic t b s'))"
  by simp

lemma ms_idRe_capture:
  assumes "m \<in> set (ms True t idRe (p, []))"
  shows "\<exists>w. map_of (snd m) (Suc 0) = Some w \<and> 5 \<le> length w"
proof -
  from assms obtain s1 s2 s3 where
    "s1 \<in> set (ms True t (Opt (Lit (js ''#''))) (p, []))"
    "s2 \<in> set (ms True t (Alt (Lit (js ''order'')) (Lit (js ''ord''))) s1)"
    "s3 \<in> set (ms True t (AtLeast 0 Space) s2)"
    and m: "m \<in> set (ms True t (Group 1 (AtLeast 5 (Ranges [(97, 122), (48, 57), (45, 45)]))) s3)"
    unfolding idRe_def ms_Seq_mem by blast
  from m ms_Group_AtLeast [of m True t 1 5 _ "fst s3" "snd s3"]
  obtain w where "snd m = (1, w) # snd s3" "5 \<le> length w" by auto
  then show ?thesis by simp
qed

lemma search_Some_mem: "search ic t r ps = Some m \<Longrightarrow> \<exists>p. m \<in> set (ms ic t r (p, []))"
proof (induction ps)
  case Nil
  then show ?case by simp
next
  case (Cons p ps)
  then show ?case
    by (cases "ms ic t r (p, [])") (auto intro: exI [of _ p])
qed

lemma matchGroup_idRe_length:
  assumes "matchGroup True idRe t (Suc 0) = Some w"
  shows "5 \<le> length w"
proof -
  from assms obtain m where e: "exec True idRe t = Some m" and w: "map_of (snd m) (Suc 0) = Some w"
    by (auto simp: matchGroup_def split: option.splits)
  from e search_Some_mem obtain p where "m \<in> set (ms True t idRe (p, []))"
    unfolding exec_def by blast
  from ms_idRe_capture [OF this] w show ?thesis by simp
qed

lemma detectIntent_order_id:
  assumes "detectIntent text = order_status (Some w)"
  shows "5 \<le> length w"
proof -
  from assms have "matchGroup True idRe (toLowerCase text) (Suc 0) = Some w"
    by (simp add: detectIntent_def Let_def split: if_splits)
  then show ?thesis by (rule matchGroup_idRe_length)
qed

text \<open>
  C7. With the order id absent, the tool returns the clarifying question asking for an order
  ID, which is no status body, whatever the random number. With an order id present, as the
  classifier passes it, and \<open>Math.random()\<close> any double of \<open>[0, 1)\<close>, the body names the
  order id and one status of the fixed list.
\<close>

theorem toolOrderStatus_on_every_call:
  "toolOrderStatus e None
     = \<lparr>title = js ''Order status'',
        body = js ''I can check that'' @ [8212]
          @ js ''please share your order ID (e.g., ORD-12345).''\<rparr>
   \<and> body (toolOrderStatus e None) \<noteq> js ''Order '' @ rest
   \<and> (detectIntent text = order_status (Some w) \<and> validRandom (random e) \<longrightarrow>
        (\<exists>status\<in>set statusList. toolOrderStatus e (Some w)
          = \<lparr>title = js ''Order status'',
             body = js ''Order '' @ w @ js '' is currently: '' @ status
               @ js ''. If this seems wrong, I can escalate to a human.''\<rparr>))"
proof (intro conjI impI)
  show "toolOrderStatus e None
     = \<lparr>title = js ''Order status'',
        body = js ''I can check that'' @ [8212]
          @ js ''please share your order ID (e.g., ORD-12345).''\<rparr>"
    by (simp add: toolOrderStatus_def falsy_def)
  show "body (toolOrderStatus e None) \<noteq> js ''Order '' @ rest"
    by (simp add: toolOrderStatus_def falsy_def js_def)
next
  assume a: "detectIntent text = order_status (Some w) \<and> validRandom (random e)"
  then have "5 \<le> length w" by (auto dest: detectIntent_order_id)
  then have f: "\<not> falsy (Some w)" by (auto simp: falsy_def)
  have len: "length statusList = 5" by (simp add: statusList_def)
  from a floorTimes_5 have k: "floorTimes (random e) 5 < 5" by simp
  then have "statusList ! floorTimes (random e) 5 \<in> set statusList"
    using len by (intro nth_mem) simp
  moreover have "toolOrderStatus e (Some w)
          = \<lparr>title = js ''Order status'',
             body = js ''Order '' @ w @ js '' is currently: ''
               @ statusList ! floorTimes (random e) 5
               @ js ''. If this seems wrong, I can escalate to a human.''\<rparr>"
    using f k len by (simp add: toolOrderStatus_def Let_def)
  ultimately show "\<exists>status\<in>set statusList. toolOrderStatus e (Some w)
          = \<lparr>title = js ''Order status'',
             body = js ''Order '' @ w @ js '' is currently: '' @ status
               @ js ''. If this seems wrong, I can escalate to a human.''\<rparr>"
    by blast
qed

theorem toolOrderStatus_on_every_call_witness:
  "detectIntent (js ''Where is my order #ORD-99021?'') = order_status (Some (js ''-99021''))
   \<and> validRandom (random envHalf)
   \<and> (\<exists>status\<in>set statusList. toolOrderStatus envHalf (Some (js ''-99021''))
          = \<lparr>title = js ''Order status'',
             body = js ''Order '' @ js ''-99021'' @ js '' is currently: '' @ status
               @ js ''. If this seems wrong, I can escalate to a human.''\<rparr>)"
proof -
  have a: "detectIntent (js ''Where is my order #ORD-99021?'') = order_status (Some (js ''-99021''))"
    by (simp add: detectIntent_def chars regex patterns)
  have b: "validRandom (random envHalf)" by (simp add: validRandom_def envHalf_def)
  from toolOrderStatus_on_every_call
    [of envHalf "[]" "js ''Where is my order #ORD-99021?''" "js ''-99021''"] a b
  show ?thesis by simp
qed

end
